theory Spec2Isabelle
  imports Main "HOL-Library.Sublist"
begin

section \<open>J-Archive: the background service worker and the content script\<close>

text \<open>
  The development embeds the background service worker (\<^verbatim>\<open>JArchiveBackground\<close>:
  \<^verbatim>\<open>cleanUrl\<close>, \<^verbatim>\<open>isValidUrl\<close>, \<^verbatim>\<open>buildArchiveSearchUrl\<close>, \<^verbatim>\<open>parseArchiveResults\<close>,
  \<^verbatim>\<open>searchArchiveResults\<close>, \<^verbatim>\<open>findArchiveVersion\<close>, \<^verbatim>\<open>handleFindArchive\<close>) and the
  notification UI of the content script (\<^verbatim>\<open>JArchiveContent.ArchiveNotificationUI\<close>).

  A JavaScript string is a list of code units, modelled as \<^typ>\<open>string\<close>; the code only ever
  compares code units with ASCII literals. A thrown exception is a value \<open>Inl (JsError msg)\<close>
  of a sum type, a normal completion is \<open>Inr v\<close>; an \<^verbatim>\<open>await\<close>ed promise that rejects is a
  throw at the \<^verbatim>\<open>await\<close>. Calls to \<^verbatim>\<open>console.log\<close> and \<^verbatim>\<open>console.error\<close> are left out.
\<close>

subsection \<open>Strings\<close>

datatype js_error = JsError (js_message: string)

text \<open>The character class \<^verbatim>\<open>[a-zA-Z0-9]\<close> of the regular expression.\<close>

definition is_alnum :: "char \<Rightarrow> bool" where
  "is_alnum c =
     (let n = (of_char c :: nat)
      in (97 \<le> n \<and> n \<le> 122) \<or> (65 \<le> n \<and> n \<le> 90) \<or> (48 \<le> n \<and> n \<le> 57))"

text \<open>
  \<^verbatim>\<open>String.prototype.indexOf(pat)\<close>: the index of the first occurrence of \<open>pat\<close>, or \<open>-1\<close>.
  \<open>indexOf_from s pat i\<close> scans \<open>s\<close>, the part of the string that starts at index \<open>i\<close>.
\<close>

fun indexOf_from :: "string \<Rightarrow> string \<Rightarrow> nat \<Rightarrow> int" where
  "indexOf_from [] pat i = (if pat = [] then int i else - 1)"
| "indexOf_from (c # cs) pat i =
     (if prefix pat (c # cs) then int i else indexOf_from cs pat (Suc i))"

definition indexOf :: "string \<Rightarrow> string \<Rightarrow> int" where
  "indexOf s pat = indexOf_from s pat 0"

text \<open>
  \<^verbatim>\<open>String.prototype.slice(start)\<close> with one argument: a negative \<open>start\<close> counts from the
  end of the string (and is clamped at the beginning), a non-negative one is clamped at the
  end.
\<close>

definition slice :: "string \<Rightarrow> int \<Rightarrow> string" where
  "slice s start =
     (let len = int (length s);
          from = (if start < 0 then max (len + start) 0 else min start len)
      in drop (nat from) s)"

subsection \<open>The result extractor\<close>

definition marker :: string where
  "marker = ''TEXT-BLOCK''"

definition archive_prefix :: string where
  "archive_prefix = ''https://archive.ph/''"

text \<open>
  The regular expression \<^verbatim>\<open>/https:\/\/archive\.ph\/[a-zA-Z0-9]{5,}/g\<close>.
  \<open>match_here s\<close> is the match that starts at the first code unit of \<open>s\<close>, if there is one:
  the literal prefix, then the greedy run of \<^verbatim>\<open>[a-zA-Z0-9]\<close>, which must have five code
  units or more (nothing follows the quantifier, so the greedy run is the match).
\<close>

definition match_here :: "string \<Rightarrow> string option" where
  "match_here s =
     (if prefix archive_prefix s
      then (let run = takeWhile is_alnum (drop (length archive_prefix) s)
            in if 5 \<le> length run then Some (archive_prefix @ run) else None)
      else None)"

text \<open>
  The matches of the global regular expression from left to right: after a match the search
  goes on behind it, otherwise at the next index.
\<close>

function match_g :: "string \<Rightarrow> string list" where
  "match_g s =
     (case match_here s of
        Some m \<Rightarrow> m # match_g (drop (length m) s)
      | None \<Rightarrow> (case s of [] \<Rightarrow> [] | c # cs \<Rightarrow> match_g cs))"
  by pat_completeness auto
termination
proof (relation "measure length")
  show "wf (measure length)" by simp
next
  fix s :: string and m :: string
  assume "match_here s = Some m"
  then have "m \<noteq> []" and "s \<noteq> []"
    by (auto simp: match_here_def Let_def archive_prefix_def split: if_splits)
  then show "(drop (length m) s, s) \<in> measure length"
    by simp
next
  fix s :: string and c :: char and cs :: string
  assume "s = c # cs"
  then show "(cs, s) \<in> measure length" by simp
qed

declare match_g.simps [simp del]

text \<open>\<^verbatim>\<open>String.prototype.match\<close> with this global expression: the array of matches, or \<^verbatim>\<open>null\<close>.\<close>

definition String_match :: "string \<Rightarrow> string list option" where
  "String_match s = (let ms = match_g s in if ms = [] then None else Some ms)"

text \<open>
  \<^verbatim>\<open>parseArchiveResults(html, originalUrl)\<close>. No operation of the \<^verbatim>\<open>try\<close> block throws on a
  string, so the \<^verbatim>\<open>catch\<close> branch (which returns \<^verbatim>\<open>null\<close> as well) is never taken; \<^verbatim>\<open>null\<close>
  is \<open>None\<close>.
\<close>

definition parseArchiveResults :: "string \<Rightarrow> string \<Rightarrow> string option" where
  "parseArchiveResults html originalUrl =
     (let html' = slice html (indexOf html marker)
      in case String_match html' of
           Some matches \<Rightarrow> (if 0 < length matches then Some (matches ! 0) else None)
         | None \<Rightarrow> None)"

subsection \<open>The platform: URL parsing, percent-encoding and the network\<close>

text \<open>
  The code runs on three services of the host: the \<^verbatim>\<open>URL\<close> constructor,
  \<^verbatim>\<open>encodeURIComponent\<close> and \<^verbatim>\<open>fetch\<close>. They are parameters of the embedding, collected in
  a record \<open>platform\<close>, and every general theorem holds for every platform. Of a parsed
  \<^verbatim>\<open>URL\<close> object the code reads \<^verbatim>\<open>protocol\<close>, \<^verbatim>\<open>host\<close> and \<^verbatim>\<open>pathname\<close>; \<^verbatim>\<open>search\<close> and
  \<^verbatim>\<open>hash\<close> are the parts it leaves out.
\<close>

record URL =
  protocol :: string
  host :: string
  pathname :: string
  search :: string
  hash :: string

text \<open>
  A \<^verbatim>\<open>Response\<close>: \<^verbatim>\<open>response.text()\<close> is a promise, which may reject; \<^verbatim>\<open>response.ok\<close> is, by
  the Fetch Standard, that the status is in the range 200 to 299.
\<close>

record Response =
  status :: nat
  statusText :: string
  body_text :: "js_error + string"

definition ok :: "Response \<Rightarrow> bool" where
  "ok response = (200 \<le> status response \<and> status response \<le> 299)"

text \<open>
  \<open>fetch p u\<close> is the outcome of \<^verbatim>\<open>await fetch(u, {signal: AbortSignal.timeout(10000)})\<close>:
  a response, or the rejection (a network error, or the abort when the ten seconds are over).
\<close>

record platform =
  URL_ctor :: "string \<Rightarrow> js_error + URL"
  encodeURIComponent :: "string \<Rightarrow> js_error + string"
  fetch :: "string \<Rightarrow> js_error + Response"

subsection \<open>A model of the platform\<close>

definition is_alpha :: "char \<Rightarrow> bool" where
  "is_alpha c =
     (let n = (of_char c :: nat) in (97 \<le> n \<and> n \<le> 122) \<or> (65 \<le> n \<and> n \<le> 90))"

definition is_digit :: "char \<Rightarrow> bool" where
  "is_digit c = (let n = (of_char c :: nat) in 48 \<le> n \<and> n \<le> 57)"

definition to_lower :: "char \<Rightarrow> char" where
  "to_lower c =
     (let n = (of_char c :: nat) in if 65 \<le> n \<and> n \<le> 90 then char_of (n + 32) else c)"

definition hex_digit :: "nat \<Rightarrow> char" where
  "hex_digit n = ''0123456789ABCDEF'' ! (n mod 16)"

definition pct :: "nat \<Rightarrow> string" where
  "pct b = [CHR ''%'', hex_digit (b div 16), hex_digit b]"

text \<open>The UTF-8 bytes of a code unit below 256.\<close>

definition utf8 :: "char \<Rightarrow> nat list" where
  "utf8 c =
     (let n = (of_char c :: nat) in if n < 128 then [n] else [192 + n div 64, 128 + n mod 64])"

definition percent_encode :: "(char \<Rightarrow> bool) \<Rightarrow> string \<Rightarrow> string" where
  "percent_encode in_set s = concat (map (\<lambda>c. if in_set c then concat (map pct (utf8 c)) else [c]) s)"

fun string_of_nat :: "nat \<Rightarrow> string" where
  "string_of_nat n =
     (if n < 10 then [char_of (48 + n)]
      else string_of_nat (n div 10) @ [char_of (48 + n mod 10)])"

declare string_of_nat.simps [simp del]

definition nat_of_digits :: "string \<Rightarrow> nat" where
  "nat_of_digits ds = foldl (\<lambda>a c. 10 * a + (of_char c - 48)) 0 ds"

text \<open>
  \<^verbatim>\<open>encodeURIComponent\<close>: every code unit except letters, digits and \<^verbatim>\<open>- _ . ! ~ * ' ( )\<close>
  becomes the percent-escapes of its UTF-8 bytes. (With code units below 256 there are no
  lone surrogates, on which the function throws.)
\<close>

definition uri_unreserved :: "char \<Rightarrow> bool" where
  "uri_unreserved c = (is_alnum c \<or> c \<in> set ''-_.!~*()'' \<or> c = CHR 0x27)"

definition std_encodeURIComponent :: "string \<Rightarrow> js_error + string" where
  "std_encodeURIComponent s = Inr (percent_encode (\<lambda>c. \<not> uri_unreserved c) s)"

text \<open>
  \<open>URL_parse\<close> follows the basic URL parser of the URL Standard for a string without a
  base URL, and returns what the getters \<^verbatim>\<open>protocol\<close>, \<^verbatim>\<open>host\<close>, \<^verbatim>\<open>pathname\<close>, \<^verbatim>\<open>search\<close> and
  \<^verbatim>\<open>hash\<close> of the resulting object return. Left out: the canonical forms of hosts other
  than lower case (IDNA, IPv4 numbers; a bracketed IPv6 literal, a percent-escape or a
  non-ASCII code unit in the host of a special scheme is reported as a failure), the
  Windows drive letters of \<^verbatim>\<open>file:\<close> URLs, and the treatment of spaces at the end of an
  opaque path. It agrees with the URL Standard on the inputs of the concrete instances
  (a host, where there is one, is a plain ASCII name), and it is used for these instances
  only: no general statement rests on it.
\<close>

definition c0_control_set :: "char \<Rightarrow> bool" where
  "c0_control_set c = (let n = (of_char c :: nat) in n \<le> 31 \<or> 126 < n)"

definition fragment_set :: "char \<Rightarrow> bool" where
  "fragment_set c = (c0_control_set c \<or> c \<in> set '' <>`'' \<or> c = CHR 0x22)"

definition query_set :: "bool \<Rightarrow> char \<Rightarrow> bool" where
  "query_set special c =
     (c0_control_set c \<or> c \<in> set '' #<>'' \<or> c = CHR 0x22 \<or> (special \<and> c = CHR 0x27))"

definition path_set :: "char \<Rightarrow> bool" where
  "path_set c = (query_set False c \<or> c \<in> set ''?^`{}'')"

definition forbidden_host :: "char \<Rightarrow> bool" where
  "forbidden_host c =
     (c \<in> set '' #/:<>?@[]^|'' \<or> c \<in> set [CHR 0x00, CHR 0x09, CHR 0x0A, CHR 0x0D, CHR 0x5C])"

definition forbidden_domain :: "char \<Rightarrow> bool" where
  "forbidden_domain c =
     (forbidden_host c \<or> (of_char c :: nat) \<le> 31 \<or> c = CHR ''%'' \<or> c = CHR 0x7F)"

definition invalid_url :: js_error where
  "invalid_url = JsError ''Invalid URL''"

definition strip_input :: "string \<Rightarrow> string" where
  "strip_input s =
     (let c0_or_space = (\<lambda>c. (of_char c :: nat) \<le> 32)
      in filter (\<lambda>c. c \<notin> set [CHR 0x09, CHR 0x0A, CHR 0x0D])
           (rev (dropWhile c0_or_space (rev (dropWhile c0_or_space s)))))"

definition scheme_char :: "char \<Rightarrow> bool" where
  "scheme_char c = (is_alnum c \<or> c \<in> set ''+-.'')"

definition split_scheme :: "string \<Rightarrow> (string \<times> string) option" where
  "split_scheme s =
     (if s \<noteq> [] \<and> is_alpha (hd s)
      then (case dropWhile scheme_char s of
              [] \<Rightarrow> None
            | d # ds \<Rightarrow>
                if d = CHR '':'' then Some (map to_lower (takeWhile scheme_char s), ds)
                else None)
      else None)"

definition is_special :: "string \<Rightarrow> bool" where
  "is_special scheme = (scheme \<in> set [''ftp'', ''file'', ''http'', ''https'', ''ws'', ''wss''])"

definition default_port :: "string \<Rightarrow> nat option" where
  "default_port scheme =
     map_of [(''ftp'', 21), (''http'', 80), (''https'', 443), (''ws'', 80), (''wss'', 443)] scheme"

definition parse_host :: "bool \<Rightarrow> string \<Rightarrow> js_error + string" where
  "parse_host special h =
     (if special
      then (if list_ex (\<lambda>c. forbidden_domain c \<or> 128 \<le> (of_char c :: nat)) h then Inl invalid_url
            else Inr (map to_lower h))
      else (if list_ex forbidden_host h then Inl invalid_url
            else Inr (percent_encode c0_control_set h)))"

definition parse_port :: "string \<Rightarrow> string \<Rightarrow> js_error + nat option" where
  "parse_port scheme ds =
     (if \<not> list_all is_digit ds then Inl invalid_url
      else if ds = [] then Inr None
      else (let n = nat_of_digits ds
            in if 65535 < n then Inl invalid_url
               else if default_port scheme = Some n then Inr None
               else Inr (Some n)))"

text \<open>
  The authority (credentials, host and port), as the value of the getter \<^verbatim>\<open>host\<close>: the
  credentials end at the last \<^verbatim>\<open>@\<close>, the port starts at the first colon behind them.
\<close>

definition hostport_of :: "string \<Rightarrow> string" where
  "hostport_of auth =
     (if CHR ''@'' \<in> set auth then rev (takeWhile (\<lambda>c. c \<noteq> CHR ''@'') (rev auth)) else auth)"

definition parse_hostport :: "string \<Rightarrow> string \<Rightarrow> js_error + string" where
  "parse_hostport scheme hostport =
     (let h = takeWhile (\<lambda>c. c \<noteq> CHR '':'') hostport;
          after_h = dropWhile (\<lambda>c. c \<noteq> CHR '':'') hostport
      in if (is_special scheme \<or> after_h \<noteq> []) \<and> h = [] then Inl invalid_url
         else case parse_host (is_special scheme) h of
                Inl e \<Rightarrow> Inl e
              | Inr hostname \<Rightarrow>
                  if after_h = [] then Inr hostname
                  else (case parse_port scheme (tl after_h) of
                          Inl e \<Rightarrow> Inl e
                        | Inr None \<Rightarrow> Inr hostname
                        | Inr (Some n) \<Rightarrow> Inr (hostname @ '':'' @ string_of_nat n)))"

definition parse_authority :: "string \<Rightarrow> string \<Rightarrow> js_error + string" where
  "parse_authority scheme auth =
     (if CHR ''@'' \<in> set auth \<and> hostport_of auth = [] then Inl invalid_url
      else parse_hostport scheme (hostport_of auth))"

fun split_on :: "(char \<Rightarrow> bool) \<Rightarrow> string \<Rightarrow> string list" where
  "split_on sep [] = [[]]"
| "split_on sep (c # cs) =
     (if sep c then [] # split_on sep cs
      else (case split_on sep cs of
              [] \<Rightarrow> [[c]]
            | seg # segs \<Rightarrow> (c # seg) # segs))"

definition is_single_dot :: "string \<Rightarrow> bool" where
  "is_single_dot seg = (map to_lower seg \<in> set [''.'', ''%2e''])"

definition is_double_dot :: "string \<Rightarrow> bool" where
  "is_double_dot seg = (map to_lower seg \<in> set [''..'', ''.%2e'', ''%2e.'', ''%2e%2e''])"

text \<open>The path state: the segments read so far, and the segments still to read.\<close>

fun path_state :: "string list \<Rightarrow> string list \<Rightarrow> string list" where
  "path_state path [] = path"
| "path_state path (seg # rest) =
     (if is_double_dot seg
      then path_state (butlast path @ (if rest = [] then [[]] else [])) rest
      else if is_single_dot seg
      then path_state (path @ (if rest = [] then [[]] else [])) rest
      else path_state (path @ [seg]) rest)"

definition url_sep :: "bool \<Rightarrow> char \<Rightarrow> bool" where
  "url_sep special c = (c = CHR ''/'' \<or> (special \<and> c = CHR 0x5C))"

definition parse_path :: "bool \<Rightarrow> string \<Rightarrow> string" where
  "parse_path special raw =
     (let segs = map (percent_encode path_set) (split_on (url_sep special) raw)
      in concat (map (\<lambda>seg. CHR ''/'' # seg) (path_state [] segs)))"

text \<open>
  A string \<^verbatim>\<open>path?query#fragment\<close>: the raw path, and the values of the getters \<^verbatim>\<open>search\<close>
  and \<^verbatim>\<open>hash\<close>.
\<close>

definition raw_path :: "string \<Rightarrow> string" where
  "raw_path s = takeWhile (\<lambda>c. c \<noteq> CHR ''?'' \<and> c \<noteq> CHR ''#'') s"

definition search_of :: "bool \<Rightarrow> string \<Rightarrow> string" where
  "search_of special s =
     (let q = (case dropWhile (\<lambda>c. c \<noteq> CHR ''?'' \<and> c \<noteq> CHR ''#'') s of
                 [] \<Rightarrow> []
               | c # cs \<Rightarrow> if c = CHR ''?'' then takeWhile (\<lambda>c. c \<noteq> CHR ''#'') cs else [])
      in if q = [] then [] else CHR ''?'' # percent_encode (query_set special) q)"

definition hash_of :: "string \<Rightarrow> string" where
  "hash_of s =
     (let f = (case dropWhile (\<lambda>c. c \<noteq> CHR ''#'') s of [] \<Rightarrow> [] | c # cs \<Rightarrow> cs)
      in if f = [] then [] else CHR ''#'' # percent_encode fragment_set f)"

text \<open>
  After the scheme: whether an authority follows, and where it starts. A special scheme
  other than \<^verbatim>\<open>file\<close> takes any number of slashes and backslashes before the authority.
\<close>

definition has_authority :: "string \<Rightarrow> string \<Rightarrow> bool" where
  "has_authority scheme rest =
     (if scheme = ''file'' then 2 \<le> length (takeWhile (url_sep True) rest)
      else if is_special scheme then True
      else take 2 rest = ''//'')"

definition after_slashes :: "string \<Rightarrow> string \<Rightarrow> string" where
  "after_slashes scheme rest =
     (if is_special scheme \<and> scheme \<noteq> ''file'' then dropWhile (url_sep True) rest
      else drop 2 rest)"

definition auth_end :: "bool \<Rightarrow> char \<Rightarrow> bool" where
  "auth_end special c = (url_sep special c \<or> c = CHR ''?'' \<or> c = CHR ''#'')"

definition parse_file_host :: "string \<Rightarrow> js_error + string" where
  "parse_file_host auth =
     (if auth = [] then Inr []
      else case parse_host True auth of
             Inl e \<Rightarrow> Inl e
           | Inr hostname \<Rightarrow> Inr (if hostname = ''localhost'' then [] else hostname))"

text \<open>
  The path of a URL, from the raw path: a list of segments (after one separator, when the
  raw path starts with one), or nothing behind an authority of a scheme that is not
  special, or an opaque path.
\<close>

definition parse_hier_path :: "bool \<Rightarrow> bool \<Rightarrow> string \<Rightarrow> string" where
  "parse_hier_path special with_authority raw =
     (if special
      then parse_path True (if raw \<noteq> [] \<and> url_sep True (hd raw) then tl raw else raw)
      else if raw \<noteq> [] \<and> hd raw = CHR ''/'' then parse_path False (tl raw)
      else if with_authority then []
      else percent_encode c0_control_set raw)"

definition parse_after_scheme :: "string \<Rightarrow> string \<Rightarrow> js_error + URL" where
  "parse_after_scheme scheme rest =
     (let special = is_special scheme;
          with_authority = has_authority scheme rest;
          rest1 = (if with_authority then after_slashes scheme rest else rest);
          auth = takeWhile (\<lambda>c. \<not> auth_end special c) rest1;
          hier = (if with_authority then dropWhile (\<lambda>c. \<not> auth_end special c) rest1 else rest);
          h = (if \<not> with_authority then Inr []
               else if scheme = ''file'' then parse_file_host auth
               else parse_authority scheme auth)
      in case h of
           Inl e \<Rightarrow> Inl e
         | Inr hostname \<Rightarrow>
             Inr \<lparr>protocol = scheme @ '':'', host = hostname,
                  pathname = parse_hier_path special with_authority (raw_path hier),
                  search = search_of special hier, hash = hash_of hier\<rparr>)"

definition URL_parse :: "string \<Rightarrow> js_error + URL" where
  "URL_parse input =
     (case split_scheme (strip_input input) of
        None \<Rightarrow> Inl invalid_url
      | Some (scheme, rest) \<Rightarrow> parse_after_scheme scheme rest)"

definition std :: platform where
  "std = \<lparr>URL_ctor = URL_parse, encodeURIComponent = std_encodeURIComponent,
          fetch = (\<lambda>u. Inl (JsError ''Failed to fetch''))\<rparr>"

subsection \<open>Messages\<close>

text \<open>
  A message is \<^verbatim>\<open>{type, payload}\<close>; the payload is an object that may have the properties
  \<^verbatim>\<open>url\<close>, \<^verbatim>\<open>archiveUrl\<close> and \<^verbatim>\<open>error\<close> (\<open>None\<close> is \<^verbatim>\<open>undefined\<close>). The fields of the payload
  and of the UI state carry a prefix, since \<^verbatim>\<open>archiveUrl\<close> and \<^verbatim>\<open>error\<close> are fields of
  \<^verbatim>\<open>ArchiveResponse\<close> too.
\<close>

datatype MessageType =
  FIND_ARCHIVE | ARCHIVE_FOUND | ARCHIVE_ERROR | OPEN_ARCHIVE | INJECT_CONTENT_SCRIPT

record Payload =
  p_url :: "string option"
  p_archiveUrl :: "string option"
  p_error :: "string option"

record ExtensionMessage =
  msg_type :: MessageType
  payload :: Payload

definition no_payload :: Payload where
  "no_payload = \<lparr>p_url = None, p_archiveUrl = None, p_error = None\<rparr>"

record ArchiveResponse =
  success :: bool
  archiveUrl :: "string option"
  error :: "string option"

text \<open>What the background worker does to the outside: the requests and the messages to tabs.\<close>

datatype event = Fetch string | SendMessage int ExtensionMessage

text \<open>
  A string or \<^verbatim>\<open>undefined\<close>/\<^verbatim>\<open>null\<close> in a condition is true when it is a non-empty string;
  \<^verbatim>\<open>x || d\<close> is \<open>x\<close> when \<open>x\<close> is true, and \<open>d\<close> otherwise.
\<close>

definition truthy :: "string option \<Rightarrow> bool" where
  "truthy x = (case x of None \<Rightarrow> False | Some v \<Rightarrow> v \<noteq> [])"

definition or_else :: "string option \<Rightarrow> string \<Rightarrow> string" where
  "or_else x d = (case x of None \<Rightarrow> d | Some v \<Rightarrow> if v \<noteq> [] then v else d)"

subsection \<open>The background service worker\<close>

definition buildArchiveSearchUrl :: "platform \<Rightarrow> string \<Rightarrow> js_error + string" where
  "buildArchiveSearchUrl p url =
     (case encodeURIComponent p url of
        Inl e \<Rightarrow> Inl e
      | Inr encoded \<Rightarrow> Inr (''https://archive.ph/'' @ encoded))"

text \<open>\<^verbatim>\<open>isValidUrl\<close> and \<^verbatim>\<open>cleanUrl\<close> catch what the \<^verbatim>\<open>URL\<close> constructor throws.\<close>

definition isValidUrl :: "platform \<Rightarrow> string \<Rightarrow> js_error + bool" where
  "isValidUrl p url =
     (case URL_ctor p url of
        Inl e \<Rightarrow> Inr False
      | Inr urlObj \<Rightarrow> Inr (protocol urlObj \<in> set [''http:'', ''https:'']))"

definition cleanUrl :: "platform \<Rightarrow> string \<Rightarrow> js_error + string" where
  "cleanUrl p url =
     (case URL_ctor p url of
        Inl e \<Rightarrow> Inr url
      | Inr urlObj \<Rightarrow> Inr (protocol urlObj @ ''//'' @ host urlObj @ pathname urlObj))"

text \<open>
  \<^verbatim>\<open>searchArchiveResults\<close>: one request; \<open>attempt\<close> is the \<^verbatim>\<open>try\<close> block, and the \<^verbatim>\<open>catch\<close>
  turns whatever it throws into a response.
\<close>

definition search_failed :: "js_error \<Rightarrow> ArchiveResponse" where
  "search_failed e =
     \<lparr>success = False, archiveUrl = None, error = Some (''Search failed: '' @ js_message e)\<rparr>"

definition searchArchiveResults ::
  "platform \<Rightarrow> string \<Rightarrow> string \<Rightarrow> (js_error + ArchiveResponse) \<times> event list" where
  "searchArchiveResults p searchUrl originalUrl =
     (let attempt =
            (case fetch p searchUrl of
               Inl e \<Rightarrow> Inl e
             | Inr response \<Rightarrow>
                 if \<not> ok response
                 then Inl (JsError (''HTTP '' @ string_of_nat (status response) @ '': ''
                                     @ statusText response))
                 else (case body_text response of
                         Inl e \<Rightarrow> Inl e
                       | Inr html \<Rightarrow>
                           (let archiveUrl = parseArchiveResults html originalUrl
                            in if truthy archiveUrl
                               then Inr \<lparr>success = True, archiveUrl = archiveUrl, error = None\<rparr>
                               else Inr \<lparr>success = False, archiveUrl = None,
                                         error = Some ''No archive results found''\<rparr>)))
      in (case attempt of Inl e \<Rightarrow> Inr (search_failed e) | Inr r \<Rightarrow> Inr r,
          [Fetch searchUrl]))"

definition findArchiveVersion ::
  "platform \<Rightarrow> string \<Rightarrow> (js_error + ArchiveResponse) \<times> event list" where
  "findArchiveVersion p url =
     (case cleanUrl p url of
        Inl e \<Rightarrow> (Inr (search_failed e), [])
      | Inr cleanedUrl \<Rightarrow>
          (case buildArchiveSearchUrl p cleanedUrl of
             Inl e \<Rightarrow> (Inr (search_failed e), [])
           | Inr archiveSearchUrl \<Rightarrow>
               (case searchArchiveResults p archiveSearchUrl cleanedUrl of
                  (Inl e, evs) \<Rightarrow> (Inr (search_failed e), evs)
                | (Inr r, evs) \<Rightarrow> (Inr r, evs))))"

text \<open>
  \<^verbatim>\<open>handleFindArchive(url, tabId)\<close>, with \<open>None\<close> for a \<^verbatim>\<open>tabId\<close> that is \<^verbatim>\<open>undefined\<close>;
  \<^verbatim>\<open>!tabId\<close> holds for \<^verbatim>\<open>undefined\<close> and for 0. \<^verbatim>\<open>sendMessageToTab\<close> catches a failure of
  \<^verbatim>\<open>chrome.tabs.sendMessage\<close>, so it is the event alone.
\<close>

definition handleFindArchive :: "platform \<Rightarrow> string \<Rightarrow> int option \<Rightarrow> event list" where
  "handleFindArchive p url tabId =
     (case tabId of
        None \<Rightarrow> []
      | Some tab \<Rightarrow>
          if tab = 0 then []
          else (case findArchiveVersion p url of
                  (Inr archiveResult, evs) \<Rightarrow>
                    if success archiveResult \<and> truthy (archiveUrl archiveResult)
                    then evs @ [SendMessage tab
                           \<lparr>msg_type = ARCHIVE_FOUND,
                            payload = no_payload\<lparr>p_archiveUrl := archiveUrl archiveResult\<rparr>\<rparr>]
                    else evs @ [SendMessage tab
                           \<lparr>msg_type = ARCHIVE_ERROR,
                            payload = no_payload\<lparr>p_error :=
                              Some (or_else (error archiveResult) ''Archive not found'')\<rparr>\<rparr>]
                | (Inl e, evs) \<Rightarrow>
                    evs @ [SendMessage tab
                      \<lparr>msg_type = ARCHIVE_ERROR,
                       payload = no_payload\<lparr>p_error := Some ''Failed to search for archive''\<rparr>\<rparr>]))"

definition initiateArchiveSearch :: "platform \<Rightarrow> string \<Rightarrow> int \<Rightarrow> event list" where
  "initiateArchiveSearch p url tabId =
     SendMessage tabId \<lparr>msg_type = INJECT_CONTENT_SCRIPT, payload = no_payload\<lparr>p_url := Some url\<rparr>\<rparr>
       # handleFindArchive p url (Some tabId)"

subsection \<open>The notification UI of the content script\<close>

record UIState =
  isLoading :: bool
  hasArchive :: bool
  ui_archiveUrl :: "string option"
  ui_error :: "string option"

text \<open>\<^verbatim>\<open>Partial<UIState>\<close>: \<open>None\<close> for a property that the object does not have.\<close>

record PartialUIState =
  new_isLoading :: "bool option"
  new_hasArchive :: "bool option"
  new_archiveUrl :: "string option option"
  new_error :: "string option option"

text \<open>
  The UI object; \<open>container\<close> is the \<^verbatim>\<open>innerHTML\<close> of the container element, \<open>None\<close> when
  the element is \<^verbatim>\<open>null\<close>.
\<close>

record ArchiveNotificationUI =
  container :: "string option"
  state :: UIState
  currentUrl :: string

definition new_ArchiveNotificationUI :: ArchiveNotificationUI where
  "new_ArchiveNotificationUI =
     \<lparr>container = None,
      state = \<lparr>isLoading = False, hasArchive = False, ui_archiveUrl = None, ui_error = None\<rparr>,
      currentUrl = []\<rparr>"

text \<open>
  The three templates, line by line; the glyphs that are not ASCII are given by the bytes
  of their UTF-8 encoding, as in the source file.
\<close>

fun html_lines :: "string list \<Rightarrow> string" where
  "html_lines [] = []"
| "html_lines [l] = l"
| "html_lines (l # ls) = l @ CHR 0x0A # html_lines ls"

definition glyph_magnifier :: string where
  "glyph_magnifier = [CHR 0xF0, CHR 0x9F, CHR 0x94, CHR 0x8D]"

definition glyph_check_mark :: string where
  "glyph_check_mark = [CHR 0xE2, CHR 0x9C, CHR 0x85]"

definition glyph_cross_mark :: string where
  "glyph_cross_mark = [CHR 0xE2, CHR 0x9D, CHR 0x8C]"

definition glyph_times :: string where
  "glyph_times = [CHR 0xC3, CHR 0x97]"
definition getLoadingHTML :: string where
  \<open>getLoadingHTML =
     html_lines
      [[],
       ''        <div class="j-archive-notification-content">'',
       ''          <div class="j-archive-notification-header">'',
       ''            <span class="j-archive-notification-icon j-archive-spinning">'' @ glyph_magnifier @ ''</span>'',
       ''            <span class="j-archive-notification-title">Searching Archive...</span>'',
       ''            <button class="j-archive-notification-close" id="j-archive-close-btn">'' @ glyph_times @ ''</button>'',
       ''          </div>'',
       ''          <div class="j-archive-notification-body">'',
       ''            <p>Looking for archived version on archive.ph</p>'',
       ''          </div>'',
       ''        </div>'',
       ''      '']\<close>
definition getArchiveFoundHTML :: string where
  \<open>getArchiveFoundHTML =
     html_lines
      [[],
       ''        <div class="j-archive-notification-content j-archive-success">'',
       ''          <div class="j-archive-notification-header">'',
       ''            <span class="j-archive-notification-icon">'' @ glyph_check_mark @ ''</span>'',
       ''            <span class="j-archive-notification-title">Archive Found!</span>'',
       ''            <button class="j-archive-notification-close" id="j-archive-close-btn">'' @ glyph_times @ ''</button>'',
       ''          </div>'',
       ''          <div class="j-archive-notification-body">'',
       ''            <p>Archived version is available</p>'',
       ''            <button id="j-archive-open-btn" class="j-archive-notification-btn j-archive-btn-success">'',
       ''              Open Archive'',
       ''            </button>'',
       ''          </div>'',
       ''        </div>'',
       ''      '']\<close>
definition getErrorHTML :: "UIState \<Rightarrow> string" where
  \<open>getErrorHTML st =
     html_lines
      [[],
       ''        <div class="j-archive-notification-content j-archive-error">'',
       ''          <div class="j-archive-notification-header">'',
       ''            <span class="j-archive-notification-icon">'' @ glyph_cross_mark @ ''</span>'',
       ''            <span class="j-archive-notification-title">Archive Not Found</span>'',
       ''            <button class="j-archive-notification-close" id="j-archive-close-btn">'' @ glyph_times @ ''</button>'',
       ''          </div>'',
       ''          <div class="j-archive-notification-body">'',
       ''            <p>'' @ or_else (ui_error st) ''No archived version available'' @ ''</p>'',
       ''          </div>'',
       ''        </div>'',
       ''      '']\<close>

definition renderUI :: "ArchiveNotificationUI \<Rightarrow> ArchiveNotificationUI" where
  "renderUI ui =
     (if container ui = None then ui
      else if isLoading (state ui) then ui\<lparr>container := Some getLoadingHTML\<rparr>
      else if hasArchive (state ui) \<and> truthy (ui_archiveUrl (state ui))
      then ui\<lparr>container := Some getArchiveFoundHTML\<rparr>
      else if truthy (ui_error (state ui)) then ui\<lparr>container := Some (getErrorHTML (state ui))\<rparr>
      else ui)"

definition cleanup :: "ArchiveNotificationUI \<Rightarrow> ArchiveNotificationUI" where
  "cleanup ui = ui\<lparr>container := None\<rparr>"

definition createNotificationUI :: "ArchiveNotificationUI \<Rightarrow> ArchiveNotificationUI" where
  "createNotificationUI ui = renderUI ((cleanup ui)\<lparr>container := Some []\<rparr>)"

text \<open>\<^verbatim>\<open>this.state = { ...this.state, ...newState }\<close>, then \<^verbatim>\<open>renderUI\<close>.\<close>

definition updateState :: "ArchiveNotificationUI \<Rightarrow> PartialUIState \<Rightarrow> ArchiveNotificationUI" where
  "updateState ui newState =
     renderUI (ui\<lparr>state :=
       \<lparr>isLoading = (case new_isLoading newState of None \<Rightarrow> isLoading (state ui) | Some v \<Rightarrow> v),
        hasArchive = (case new_hasArchive newState of None \<Rightarrow> hasArchive (state ui) | Some v \<Rightarrow> v),
        ui_archiveUrl =
          (case new_archiveUrl newState of None \<Rightarrow> ui_archiveUrl (state ui) | Some v \<Rightarrow> v),
        ui_error = (case new_error newState of None \<Rightarrow> ui_error (state ui) | Some v \<Rightarrow> v)\<rparr>\<rparr>)"

definition init :: "ArchiveNotificationUI \<Rightarrow> string \<Rightarrow> ArchiveNotificationUI" where
  "init ui url =
     updateState (createNotificationUI (ui\<lparr>currentUrl := url\<rparr>))
       \<lparr>new_isLoading = Some True, new_hasArchive = None, new_archiveUrl = None, new_error = None\<rparr>"

definition handleMessage :: "ArchiveNotificationUI \<Rightarrow> ExtensionMessage \<Rightarrow> ArchiveNotificationUI" where
  "handleMessage ui message =
     (case msg_type message of
        ARCHIVE_FOUND \<Rightarrow>
          updateState ui
            \<lparr>new_isLoading = Some False, new_hasArchive = Some True,
             new_archiveUrl = Some (p_archiveUrl (payload message)), new_error = Some None\<rparr>
      | ARCHIVE_ERROR \<Rightarrow>
          updateState ui
            \<lparr>new_isLoading = Some False, new_hasArchive = Some False,
             new_archiveUrl = Some None, new_error = Some (p_error (payload message))\<rparr>
      | _ \<Rightarrow> ui)"

text \<open>
  The content script: \<^verbatim>\<open>handleInjection\<close> replaces the UI by a new one for the given URL
  and adds one more listener that forwards \<^verbatim>\<open>ARCHIVE_FOUND\<close> and \<^verbatim>\<open>ARCHIVE_ERROR\<close> to the
  current UI; \<open>forwarders\<close> counts these listeners. The background worker sends
  \<^verbatim>\<open>INJECT_CONTENT_SCRIPT\<close> with a \<^verbatim>\<open>url\<close> always; without one the model leaves the content
  script as it is.
\<close>

record ContentScript =
  cs_ui :: "ArchiveNotificationUI option"
  initialized :: bool
  forwarders :: nat

definition handleInjection :: "ContentScript \<Rightarrow> string \<Rightarrow> ContentScript" where
  "handleInjection cs url =
     cs\<lparr>cs_ui := Some (init new_ArchiveNotificationUI url), forwarders := Suc (forwarders cs)\<rparr>"

definition onMessage :: "ContentScript \<Rightarrow> ExtensionMessage \<Rightarrow> ContentScript" where
  "onMessage cs message =
     (let cs1 = (if initialized cs \<and> msg_type message = INJECT_CONTENT_SCRIPT
                 then (case p_url (payload message) of
                         None \<Rightarrow> cs
                       | Some url \<Rightarrow> handleInjection cs url)
                 else cs)
      in if msg_type message \<in> set [ARCHIVE_FOUND, ARCHIVE_ERROR]
         then cs1\<lparr>cs_ui := map_option ((\<lambda>u. handleMessage u message) ^^ forwarders cs) (cs_ui cs1)\<rparr>
         else cs1)"

subsection \<open>The notions of the specification\<close>

text \<open>
  A string matches the pattern of an archive link when it is \<^verbatim>\<open>https://archive.ph/\<close>
  followed by an identifier of five or more letters and digits.
\<close>

definition spec_archive_link :: "string \<Rightarrow> bool" where
  "spec_archive_link m =
     (\<exists>ident. m = ''https://archive.ph/'' @ ident \<and> 5 \<le> length ident \<and> list_all is_alnum ident)"

text \<open>
  The three outcomes of a lookup, as shapes of an \<^verbatim>\<open>ArchiveResponse\<close>: found, with the
  link; not found; failed, with a reason.
\<close>

definition is_Found :: "ArchiveResponse \<Rightarrow> string \<Rightarrow> bool" where
  "is_Found r u = (r = \<lparr>success = True, archiveUrl = Some u, error = None\<rparr> \<and> u \<noteq> [])"

definition is_NotFound :: "ArchiveResponse \<Rightarrow> bool" where
  "is_NotFound r =
     (r = \<lparr>success = False, archiveUrl = None, error = Some ''No archive results found''\<rparr>)"

definition is_Failed :: "ArchiveResponse \<Rightarrow> string \<Rightarrow> bool" where
  "is_Failed r reason =
     (r = \<lparr>success = False, archiveUrl = None, error = Some reason\<rparr>
      \<and> prefix ''Search failed: '' reason)"

text \<open>A response has the shape of exactly one of the three outcomes.\<close>

definition one_outcome :: "ArchiveResponse \<Rightarrow> bool" where
  "one_outcome r =
     (let found = (\<exists>u. is_Found r u);
          not_found = is_NotFound r;
          failed = (\<exists>reason. is_Failed r reason)
      in (found \<and> \<not> not_found \<and> \<not> failed)
         \<or> (\<not> found \<and> not_found \<and> \<not> failed)
         \<or> (\<not> found \<and> \<not> not_found \<and> failed))"

subsection \<open>Concrete platforms and pages\<close>

text \<open>A server that answers every request with the given response, and a network that times out.\<close>

definition serving :: "Response \<Rightarrow> platform" where
  "serving response = std\<lparr>fetch := (\<lambda>u. Inr response)\<rparr>"

definition timing_out :: platform where
  "timing_out = std\<lparr>fetch := (\<lambda>u. Inl (JsError ''The operation was aborted due to timeout''))\<rparr>"

definition results_page :: Response where
  \<open>results_page =
     \<lparr>status = 200, statusText = ''OK'',
      body_text = Inr ''<div id="TEXT-BLOCK"><a href="https://archive.ph/qz7x9">1</a> <a href="https://archive.ph/zzz99">2</a></div>''\<rparr>\<close>

definition empty_page :: Response where
  \<open>empty_page =
     \<lparr>status = 200, statusText = ''OK'', body_text = Inr ''<div id="TEXT-BLOCK">No results</div>''\<rparr>\<close>

definition unavailable :: Response where
  "unavailable =
     \<lparr>status = 503, statusText = ''Service Unavailable'', body_text = Inr []\<rparr>"

definition found_message :: "string \<Rightarrow> ExtensionMessage" where
  "found_message u =
     \<lparr>msg_type = ARCHIVE_FOUND, payload = no_payload\<lparr>p_archiveUrl := Some u\<rparr>\<rparr>"

definition error_message :: "string \<Rightarrow> ExtensionMessage" where
  "error_message e =
     \<lparr>msg_type = ARCHIVE_ERROR, payload = no_payload\<lparr>p_error := Some e\<rparr>\<rparr>"

definition inject_message :: "string \<Rightarrow> ExtensionMessage" where
  "inject_message url =
     \<lparr>msg_type = INJECT_CONTENT_SCRIPT, payload = no_payload\<lparr>p_url := Some url\<rparr>\<rparr>"

text \<open>The content script after \<^verbatim>\<open>new ContentScript()\<close> and \<^verbatim>\<open>init()\<close>.\<close>

definition started_ContentScript :: ContentScript where
  "started_ContentScript = \<lparr>cs_ui = None, initialized = True, forwarders = 0\<rparr>"

section \<open>Properties\<close>

subsection \<open>Strings and the regular expression\<close>

lemma sublist_iff_prefix_drop: "sublist pat s \<longleftrightarrow> (\<exists>j. prefix pat (drop j s))"
proof
  assume "sublist pat s"
  then obtain ps ss where "s = ps @ pat @ ss" by (auto simp: sublist_def)
  then have "prefix pat (drop (length ps) s)" by simp
  then show "\<exists>j. prefix pat (drop j s)" ..
next
  assume "\<exists>j. prefix pat (drop j s)"
  then obtain j where "prefix pat (drop j s)" ..
  then obtain ss where "drop j s = pat @ ss" by (auto simp: prefix_def)
  then have "s = take j s @ pat @ ss" by (metis append_take_drop_id)
  then show "sublist pat s" by (metis sublist_appendI)
qed

lemma indexOf_from_cases:
  assumes "pat \<noteq> []"
  shows "(indexOf_from s pat i = - 1 \<and> (\<forall>j. \<not> prefix pat (drop j s)))
       \<or> (\<exists>k. indexOf_from s pat i = int (i + k) \<and> prefix pat (drop k s)
              \<and> (\<forall>j<k. \<not> prefix pat (drop j s)))"
proof (induction s arbitrary: i)
  case Nil
  with assms show ?case by simp
next
  case (Cons c cs)
  show ?case
  proof (cases "prefix pat (c # cs)")
    case True
    then have "indexOf_from (c # cs) pat i = int (i + 0) \<and> prefix pat (drop 0 (c # cs))
        \<and> (\<forall>j<0::nat. \<not> prefix pat (drop j (c # cs)))" by simp
    then show ?thesis by blast
  next
    case False
    from Cons.IH [of "Suc i"] show ?thesis
    proof
      assume h: "indexOf_from cs pat (Suc i) = - 1 \<and> (\<forall>j. \<not> prefix pat (drop j cs))"
      have "\<not> prefix pat (drop j (c # cs))" for j
        using h False by (cases j) auto
      with h False show ?thesis by simp
    next
      assume "\<exists>k. indexOf_from cs pat (Suc i) = int (Suc i + k) \<and> prefix pat (drop k cs)
              \<and> (\<forall>j<k. \<not> prefix pat (drop j cs))"
      then obtain k where k: "indexOf_from cs pat (Suc i) = int (Suc i + k)"
        "prefix pat (drop k cs)" "\<forall>j<k. \<not> prefix pat (drop j cs)" by blast
      have "\<not> prefix pat (drop j (c # cs))" if "j < Suc k" for j
        using that k(3) False by (cases j) auto
      with k False have "indexOf_from (c # cs) pat i = int (i + Suc k) \<and>
         prefix pat (drop (Suc k) (c # cs)) \<and> (\<forall>j<Suc k. \<not> prefix pat (drop j (c # cs)))"
        by simp
      then show ?thesis by blast
    qed
  qed
qed

lemma match_here_length: "match_here s = Some m \<Longrightarrow> 24 \<le> length m \<and> length m \<le> length s"
proof -
  assume a: "match_here s = Some m"
  then have p: "prefix archive_prefix s"
    and r: "5 \<le> length (takeWhile is_alnum (drop (length archive_prefix) s))"
    and m: "m = archive_prefix @ takeWhile is_alnum (drop (length archive_prefix) s)"
    by (auto simp: match_here_def Let_def split: if_splits)
  from p obtain zs where s: "s = archive_prefix @ zs" by (auto simp: prefix_def)
  have "length (takeWhile is_alnum zs) \<le> length zs" by (rule length_takeWhile_le)
  with r m s show ?thesis by (simp add: archive_prefix_def)
qed

lemma match_here_short: "length s < 24 \<Longrightarrow> match_here s = None"
  using match_here_length [of s] by (cases "match_here s") auto

lemma match_g_Nil_iff: "match_g s = [] \<longleftrightarrow> (\<forall>j. match_here (drop j s) = None)"
proof (induction s rule: match_g.induct)
  case (1 s)
  show ?case
  proof (cases "match_here s")
    case (Some m)
    have "\<not> (\<forall>j. match_here (drop j s) = None)"
    proof
      assume "\<forall>j. match_here (drop j s) = None"
      then have "match_here (drop 0 s) = None" ..
      with Some show False by simp
    qed
    moreover from Some have "match_g s \<noteq> []" by (subst match_g.simps) simp
    ultimately show ?thesis by simp
  next
    case None
    show ?thesis
    proof (cases s)
      case Nil
      with None show ?thesis by (subst match_g.simps) simp
    next
      case (Cons c cs)
      have "(\<forall>j. match_here (drop j (c # cs)) = None) \<longleftrightarrow> (\<forall>j. match_here (drop j cs) = None)"
      proof
        assume a: "\<forall>j. match_here (drop j (c # cs)) = None"
        show "\<forall>j. match_here (drop j cs) = None"
        proof
          fix j from a have "match_here (drop (Suc j) (c # cs)) = None" by blast
          then show "match_here (drop j cs) = None" by simp
        qed
      next
        assume a: "\<forall>j. match_here (drop j cs) = None"
        show "\<forall>j. match_here (drop j (c # cs)) = None"
        proof
          fix j show "match_here (drop j (c # cs)) = None"
            using a None Cons by (cases j) auto
        qed
      qed
      with "1.IH"(1) [OF None Cons] None Cons show ?thesis
        by (subst match_g.simps) simp
    qed
  qed
qed

lemma match_g_first:
  "match_g s = m # ms \<Longrightarrow>
     \<exists>i. match_here (drop i s) = Some m \<and> (\<forall>j<i. match_here (drop j s) = None)"
proof (induction s rule: match_g.induct)
  case (1 s)
  show ?case
  proof (cases "match_here s")
    case (Some m')
    with "1.prems" have "m' = m" by (subst (asm) match_g.simps) simp
    with Some have "match_here (drop 0 s) = Some m \<and> (\<forall>j<0::nat. match_here (drop j s) = None)"
      by simp
    then show ?thesis by blast
  next
    case None
    show ?thesis
    proof (cases s)
      case Nil
      with None "1.prems" show ?thesis by (subst (asm) match_g.simps) simp
    next
      case (Cons c cs)
      with None "1.prems" have "match_g cs = m # ms" by (subst (asm) match_g.simps) simp
      from "1.IH"(1) [OF None Cons this] obtain i where
        i: "match_here (drop i cs) = Some m" "\<forall>j<i. match_here (drop j cs) = None" by blast
      have "match_here (drop j s) = None" if "j < Suc i" for j
        using that i(2) None Cons by (cases j) auto
      with i(1) Cons have "match_here (drop (Suc i) s) = Some m \<and>
          (\<forall>j<Suc i. match_here (drop j s) = None)" by simp
      then show ?thesis by blast
    qed
  qed
qed

lemma match_here_Some:
  assumes "match_here s = Some m"
  shows "spec_archive_link m" and "prefix m s"
    and "\<And>m'. spec_archive_link m' \<Longrightarrow> prefix m' s \<Longrightarrow> prefix m' m"
proof -
  define zs where "zs = drop (length archive_prefix) s"
  from assms have p: "prefix archive_prefix s"
    and r: "5 \<le> length (takeWhile is_alnum zs)"
    and m: "m = archive_prefix @ takeWhile is_alnum zs"
    by (auto simp: match_here_def Let_def zs_def split: if_splits)
  from p have s: "s = archive_prefix @ zs"
    by (auto simp: prefix_def zs_def)
  have "list_all is_alnum (takeWhile is_alnum zs)"
    by (simp add: list_all_iff) (meson set_takeWhileD)
  with r m show "spec_archive_link m"
    by (auto simp: spec_archive_link_def archive_prefix_def)
  have "prefix (takeWhile is_alnum zs) zs"
    by (metis prefix_def takeWhile_dropWhile_id)
  with m s show "prefix m s" by (metis same_prefix_prefix)
  fix m' assume l: "spec_archive_link m'" and q: "prefix m' s"
  from l obtain ident where i: "m' = archive_prefix @ ident" "list_all is_alnum ident"
    by (auto simp: spec_archive_link_def archive_prefix_def)
  with q s have "prefix ident zs" by (metis same_prefix_prefix)
  then obtain ws where "zs = ident @ ws" by (auto simp: prefix_def)
  with i(2) have "takeWhile is_alnum zs = ident @ takeWhile is_alnum ws"
    by (simp add: list_all_iff takeWhile_append2)
  with i(1) m show "prefix m' m" by simp
qed

lemma match_here_None:
  assumes "match_here s = None" and "spec_archive_link m"
  shows "\<not> prefix m s"
proof
  assume q: "prefix m s"
  from assms(2) obtain ident where i: "m = archive_prefix @ ident" "5 \<le> length ident"
      "list_all is_alnum ident"
    by (auto simp: spec_archive_link_def archive_prefix_def)
  from q i(1) obtain ws where s: "s = archive_prefix @ ident @ ws" by (auto simp: prefix_def)
  from i(3) have "takeWhile is_alnum (ident @ ws) = ident @ takeWhile is_alnum ws"
    by (simp add: list_all_iff takeWhile_append2)
  with s i(2) have "match_here s \<noteq> None"
    by (simp add: match_here_def Let_def)
  with assms(1) show False by simp
qed

lemma indexOf_absent:
  assumes "\<not> sublist marker html"
  shows "indexOf html marker = - 1"
proof -
  have "marker \<noteq> []" by (simp add: marker_def)
  from indexOf_from_cases [OF this, of html 0] assms show ?thesis
    by (auto simp: indexOf_def sublist_iff_prefix_drop)
qed

lemma indexOf_first:
  assumes "prefix marker (drop k html)" and "\<forall>j<k. \<not> prefix marker (drop j html)"
  shows "indexOf html marker = int k"
proof -
  have ne: "marker \<noteq> []" by (simp add: marker_def)
  from indexOf_from_cases [OF ne, of html 0] assms(1)
  obtain k' where k': "indexOf html marker = int k'" "prefix marker (drop k' html)"
     "\<forall>j<k'. \<not> prefix marker (drop j html)"
    by (auto simp: indexOf_def)
  with assms have "k' = k" by (meson linorder_neqE_nat)
  with k'(1) show ?thesis by simp
qed

lemma no_match_inside_marker:
  assumes "prefix marker s" and "j < length marker"
  shows "match_here (drop j s) = None"
proof -
  from assms(1) obtain r where s: "s = marker @ r" by (auto simp: prefix_def)
  from assms(2) have "j \<in> {0, 1, 2, 3, 4, 5, 6, 7, 8, 9}"
    by (auto simp: marker_def)
  then have "\<not> prefix archive_prefix (drop j s)"
    unfolding s by (auto simp: marker_def archive_prefix_def)
  then show ?thesis by (simp add: match_here_def)
qed

subsection \<open>The result extractor\<close>

text \<open>
  C4. When the marker \<^verbatim>\<open>TEXT-BLOCK\<close> does not occur in the document,
  \<^verbatim>\<open>parseArchiveResults\<close> returns \<^verbatim>\<open>null\<close>, whatever else the document contains:
  \<^verbatim>\<open>indexOf\<close> is \<open>-1\<close>, so \<^verbatim>\<open>slice\<close> keeps the last code unit at most, which is too short
  for a match.
\<close>

theorem parseArchiveResults_marker_absent:
  assumes "\<not> sublist marker html"
  shows "parseArchiveResults html originalUrl = None"
proof -
  let ?h = "slice html (indexOf html marker)"
  have "length ?h \<le> 1"
    by (simp add: indexOf_absent [OF assms] slice_def)
  then have "match_here (drop j ?h) = None" for j
    by (intro match_here_short) simp
  then have "match_g ?h = []"
    by (simp add: match_g_Nil_iff)
  then show ?thesis
    by (simp add: parseArchiveResults_def String_match_def)
qed

theorem parseArchiveResults_marker_absent_witness:
  "\<not> sublist marker ''<a href=https://archive.ph/abc12>https://archive.ph/zzz99</a>'' \<and>
   parseArchiveResults ''<a href=https://archive.ph/abc12>https://archive.ph/zzz99</a>''
     ''https://a.com/p'' = None"
proof -
  have absent: "\<not> sublist marker ''<a href=https://archive.ph/abc12>https://archive.ph/zzz99</a>''"
    by code_simp
  from parseArchiveResults_marker_absent [OF absent, of "''https://a.com/p''"] absent
  show ?thesis by simp
qed

text \<open>
  C5. When the marker occurs, first at index \<open>k\<close>, the result is the first archive link
  behind the marker: a link \<open>r\<close> that stands at an index \<open>i\<close> behind the marker, with its
  identifier taken as long as possible (every link at \<open>i\<close> is a prefix of \<open>r\<close>), and with
  no link at an index between the marker and \<open>i\<close>; later links are ignored. When no link
  stands behind the marker, the result is \<^verbatim>\<open>null\<close>.
\<close>

theorem parseArchiveResults_first_link:
  assumes "prefix marker (drop k html)" and "\<forall>j<k. \<not> prefix marker (drop j html)"
  shows "case parseArchiveResults html originalUrl of
           Some r \<Rightarrow>
             (\<exists>i. k + length marker \<le> i \<and> spec_archive_link r \<and> prefix r (drop i html)
                \<and> (\<forall>m. spec_archive_link m \<and> prefix m (drop i html) \<longrightarrow> prefix m r)
                \<and> (\<forall>j m. k + length marker \<le> j \<and> j < i \<and> spec_archive_link m
                       \<longrightarrow> \<not> prefix m (drop j html)))
         | None \<Rightarrow>
             (\<forall>j m. k + length marker \<le> j \<and> spec_archive_link m \<longrightarrow> \<not> prefix m (drop j html))"
proof -
  from assms(1) have "drop k html \<noteq> []" by (auto simp: marker_def)
  then have "k \<le> length html" by simp
  then have sl: "slice html (indexOf html marker) = drop k html"
    by (simp add: indexOf_first [OF assms] slice_def)
  show ?thesis
  proof (cases "match_g (drop k html)")
    case Nil
    then have "match_here (drop j (drop k html)) = None" for j
      by (simp add: match_g_Nil_iff)
    then have none: "match_here (drop (k + j) html) = None" for j
      by (simp add: add.commute)
    have "\<not> prefix m (drop j html)" if "k + length marker \<le> j" "spec_archive_link m" for j m
    proof -
      from that(1) have "j = k + (j - k)" by simp
      with none [of "j - k"] have "match_here (drop j html) = None" by simp
      then show ?thesis using that(2) by (rule match_here_None)
    qed
    with Nil sl show ?thesis
      by (simp add: parseArchiveResults_def String_match_def)
  next
    case (Cons r rs)
    from match_g_first [OF Cons] obtain i where
      i: "match_here (drop i (drop k html)) = Some r"
         "\<forall>j<i. match_here (drop j (drop k html)) = None" by blast
    have "length marker \<le> i"
    proof (rule ccontr)
      assume "\<not> length marker \<le> i"
      then have "match_here (drop i (drop k html)) = None"
        using no_match_inside_marker [OF assms(1), of i] by simp
      with i(1) show False by simp
    qed
    then have le: "k + length marker \<le> i + k" by simp
    from i(1) have hit: "match_here (drop (i + k) html) = Some r" by simp
    have before: "\<not> prefix m (drop j html)"
      if "k + length marker \<le> j" "j < i + k" "spec_archive_link m" for j m
    proof -
      from that(1,2) have "j - k < i" and "j = (j - k) + k" by auto
      with i(2) have "match_here (drop j html) = None"
        by (metis drop_drop)
      then show ?thesis using that(3) by (rule match_here_None)
    qed
    from match_here_Some [OF hit] le before
    have "k + length marker \<le> i + k \<and> spec_archive_link r \<and> prefix r (drop (i + k) html)
        \<and> (\<forall>m. spec_archive_link m \<and> prefix m (drop (i + k) html) \<longrightarrow> prefix m r)
        \<and> (\<forall>j m. k + length marker \<le> j \<and> j < i + k \<and> spec_archive_link m
               \<longrightarrow> \<not> prefix m (drop j html))"
      by blast
    then have "\<exists>i. k + length marker \<le> i \<and> spec_archive_link r \<and> prefix r (drop i html)
        \<and> (\<forall>m. spec_archive_link m \<and> prefix m (drop i html) \<longrightarrow> prefix m r)
        \<and> (\<forall>j m. k + length marker \<le> j \<and> j < i \<and> spec_archive_link m
               \<longrightarrow> \<not> prefix m (drop j html))" ..
    with Cons sl show ?thesis
      by (simp add: parseArchiveResults_def String_match_def)
  qed
qed

theorem parseArchiveResults_first_link_witness:
  "prefix marker (drop 2 ''..TEXT-BLOCK..https://archive.ph/abc12 https://archive.ph/zzz99'') \<and>
   \<not> prefix marker (drop 0 ''..TEXT-BLOCK..https://archive.ph/abc12 https://archive.ph/zzz99'') \<and>
   \<not> prefix marker (drop 1 ''..TEXT-BLOCK..https://archive.ph/abc12 https://archive.ph/zzz99'') \<and>
   parseArchiveResults ''..TEXT-BLOCK..https://archive.ph/abc12 https://archive.ph/zzz99'' []
     = Some ''https://archive.ph/abc12'' \<and>
   spec_archive_link ''https://archive.ph/abc12''"
proof -
  let ?h = "''..TEXT-BLOCK..https://archive.ph/abc12 https://archive.ph/zzz99''"
  have a: "prefix marker (drop 2 ?h)" by (simp add: marker_def)
  have b: "\<forall>j<2. \<not> prefix marker (drop j ?h)"
    by (simp add: marker_def less_Suc_eq numeral_2_eq_2)
  have c: "parseArchiveResults ?h [] = Some ''https://archive.ph/abc12''" by code_simp
  from parseArchiveResults_first_link [OF a b, of "[]"] a b c show ?thesis
    by (auto simp: numeral_2_eq_2)
qed

subsection \<open>The URL normalizer\<close>

lemma cleanUrl_returns: "\<exists>s. cleanUrl p url = Inr s"
  by (simp add: cleanUrl_def split: sum.split)

lemma searchArchiveResults_returns:
  "\<exists>r. searchArchiveResults p q c = (Inr r, [Fetch q])"
  by (simp add: searchArchiveResults_def Let_def split: sum.split)

lemma findArchiveVersion_query:
  assumes "cleanUrl p url = Inr c" and "buildArchiveSearchUrl p c = Inr q"
  shows "findArchiveVersion p url = searchArchiveResults p q c"
proof -
  obtain r where "searchArchiveResults p q c = (Inr r, [Fetch q])"
    using searchArchiveResults_returns by blast
  with assms show ?thesis by (simp add: findArchiveVersion_def)
qed

text \<open>
  C1, as stated: the normalizer fails on an input that does not parse as an absolute URL,
  or whose scheme is not http or https. It does not hold: \<^verbatim>\<open>cleanUrl\<close> returns a string for
  \<^verbatim>\<open>ftp://x\<close>, which parses with the protocol \<^verbatim>\<open>ftp:\<close>.
\<close>

theorem cleanUrl_rejects_counterexample:
  "URL_ctor std ''ftp://x'' =
     Inr \<lparr>protocol = ''ftp:'', host = ''x'', pathname = ''/'', search = [], hash = []\<rparr> \<and>
   cleanUrl std ''ftp://x'' = Inr ''ftp://x/''"
  by code_simp

text \<open>
  C1, amended. On such an input \<^verbatim>\<open>isValidUrl\<close> returns \<^verbatim>\<open>false\<close>, and \<^verbatim>\<open>cleanUrl\<close> does not
  fail: it returns the input itself when the input does not parse, and
  \<^verbatim>\<open>protocol//host+pathname\<close> when it parses with another scheme.
\<close>

theorem cleanUrl_never_rejects:
  assumes "case URL_ctor p raw of Inl e \<Rightarrow> True
           | Inr urlObj \<Rightarrow> protocol urlObj \<notin> set [''http:'', ''https:'']"
  shows "isValidUrl p raw = Inr False \<and>
         cleanUrl p raw =
           Inr (case URL_ctor p raw of Inl e \<Rightarrow> raw
                | Inr urlObj \<Rightarrow> protocol urlObj @ ''//'' @ host urlObj @ pathname urlObj)"
  using assms by (simp add: isValidUrl_def cleanUrl_def split: sum.splits)

theorem cleanUrl_never_rejects_witness:
  "URL_ctor std ''javascript:alert(1)'' =
     Inr \<lparr>protocol = ''javascript:'', host = [], pathname = ''alert(1)'', search = [], hash = []\<rparr> \<and>
   isValidUrl std ''javascript:alert(1)'' = Inr False \<and>
   cleanUrl std ''javascript:alert(1)'' = Inr ''javascript://alert(1)''"
proof -
  have a: "URL_ctor std ''javascript:alert(1)'' =
     Inr \<lparr>protocol = ''javascript:'', host = [], pathname = ''alert(1)'', search = [], hash = []\<rparr>"
    by code_simp
  from cleanUrl_never_rejects [of std "''javascript:alert(1)''"] a show ?thesis by simp
qed

text \<open>
  C7, as stated: for a valid absolute http or https URL the result is scheme, host and
  path, and nothing but the query string and the fragment is changed. It does not hold:
  \<^verbatim>\<open>https://a.com\<close> has neither a query string nor a fragment, and the result is
  \<^verbatim>\<open>https://a.com/\<close>; the credentials of \<^verbatim>\<open>https://user:pw@a.com/p\<close> are dropped, and
  \<^verbatim>\<open>HTTPS://A.COM/p\<close> comes back in lower case.
\<close>

theorem cleanUrl_other_modification_counterexample:
  "URL_ctor std ''https://a.com'' =
     Inr \<lparr>protocol = ''https:'', host = ''a.com'', pathname = ''/'', search = [], hash = []\<rparr> \<and>
   cleanUrl std ''https://a.com'' = Inr ''https://a.com/'' \<and>
   cleanUrl std ''https://a.com'' \<noteq> Inr ''https://a.com'' \<and>
   cleanUrl std ''https://user:pw@a.com/p'' = Inr ''https://a.com/p'' \<and>
   cleanUrl std ''HTTPS://A.COM/p'' = Inr ''https://a.com/p''"
  by code_simp

text \<open>
  C7, amended. For an input that parses as an http or https URL, \<^verbatim>\<open>cleanUrl\<close> returns the
  scheme, \<^verbatim>\<open>://\<close>, and the host and the pathname of the parsed URL object, as the URL
  constructor gives them. The query string and the fragment are stripped: an input whose
  parsed URL differs from this one in \<^verbatim>\<open>search\<close> and \<^verbatim>\<open>hash\<close> only has the same result.
  What else the input loses or changes is what the constructor does to scheme, host and
  path. The instance of the specification is \<^verbatim>\<open>https://a.com/p?q=1#frag\<close>, which becomes
  \<^verbatim>\<open>https://a.com/p\<close>.
\<close>

theorem cleanUrl_scheme_host_path_of_parsed:
  assumes "URL_ctor p raw = Inr urlObj"
    and "protocol urlObj = scheme @ '':''"
    and "scheme \<in> set [''http'', ''https'']"
  shows "cleanUrl p raw = Inr (scheme @ ''://'' @ host urlObj @ pathname urlObj) \<and>
         (URL_ctor q other = Inr (urlObj\<lparr>search := query, hash := fragment\<rparr>) \<longrightarrow>
            cleanUrl q other = cleanUrl p raw)"
  using assms by (simp add: cleanUrl_def)

theorem cleanUrl_scheme_host_path_of_parsed_witness:
  "URL_ctor std ''https://a.com/p?q=1#frag'' =
     Inr \<lparr>protocol = ''https:'', host = ''a.com'', pathname = ''/p'', search = ''?q=1'',
          hash = ''#frag''\<rparr> \<and>
   URL_ctor std ''https://a.com/p'' =
     Inr \<lparr>protocol = ''https:'', host = ''a.com'', pathname = ''/p'', search = [], hash = []\<rparr> \<and>
   cleanUrl std ''https://a.com/p?q=1#frag'' = Inr ''https://a.com/p'' \<and>
   cleanUrl std ''https://a.com/p'' = Inr ''https://a.com/p''"
proof -
  let ?u = "\<lparr>protocol = ''https:'', host = ''a.com'', pathname = ''/p'', search = ''?q=1'',
          hash = ''#frag''\<rparr>"
  have a: "URL_ctor std ''https://a.com/p?q=1#frag'' = Inr ?u" by code_simp
  have b: "URL_ctor std ''https://a.com/p'' = Inr (?u\<lparr>search := [], hash := []\<rparr>)"
    by code_simp
  have s: "protocol ?u = ''https'' @ '':''" and m: "''https'' \<in> set [''http'', ''https'']"
    by simp_all
  from cleanUrl_scheme_host_path_of_parsed [OF a s m, of std "''https://a.com/p''" "[]" "[]"] a b
  show ?thesis by simp
qed




text \<open>
  C9. \<^verbatim>\<open>cleanUrl\<close> never throws; an input that does not parse is returned as it is, and
  the request of the lookup is made for that string, percent-encoded.
\<close>

theorem cleanUrl_total:
  "(\<exists>s. cleanUrl p url = Inr s) \<and>
   (\<forall>e. URL_ctor p url = Inl e \<longrightarrow>
      cleanUrl p url = Inr url \<and>
      (\<forall>encoded. encodeURIComponent p url = Inr encoded \<longrightarrow>
         snd (findArchiveVersion p url) = [Fetch (''https://archive.ph/'' @ encoded)]))"
proof (intro conjI allI impI)
  show "\<exists>s. cleanUrl p url = Inr s" by (rule cleanUrl_returns)
next
  fix e assume "URL_ctor p url = Inl e"
  then show "cleanUrl p url = Inr url" by (simp add: cleanUrl_def)
next
  fix e encoded
  assume a: "URL_ctor p url = Inl e" and b: "encodeURIComponent p url = Inr encoded"
  from a have c: "cleanUrl p url = Inr url" by (simp add: cleanUrl_def)
  from b have q: "buildArchiveSearchUrl p url = Inr (''https://archive.ph/'' @ encoded)"
    by (simp add: buildArchiveSearchUrl_def)
  obtain r where "searchArchiveResults p (''https://archive.ph/'' @ encoded) url
      = (Inr r, [Fetch (''https://archive.ph/'' @ encoded)])"
    using searchArchiveResults_returns by blast
  with findArchiveVersion_query [OF c q]
  show "snd (findArchiveVersion p url) = [Fetch (''https://archive.ph/'' @ encoded)]"
    by simp
qed

theorem cleanUrl_total_witness:
  "URL_ctor std ''not a url'' = Inl invalid_url \<and>
   encodeURIComponent std ''not a url'' = Inr ''not%20a%20url'' \<and>
   cleanUrl std ''not a url'' = Inr ''not a url'' \<and>
   snd (findArchiveVersion std ''not a url'') = [Fetch ''https://archive.ph/not%20a%20url'']"
proof -
  have a: "URL_ctor std ''not a url'' = Inl invalid_url" by code_simp
  have b: "encodeURIComponent std ''not a url'' = Inr ''not%20a%20url''" by code_simp
  from cleanUrl_total [of std "''not a url''"] a b show ?thesis by simp
qed

subsection \<open>The lookup\<close>

lemma parseArchiveResults_Some:
  assumes "parseArchiveResults html c = Some u"
  shows "spec_archive_link u"
proof -
  let ?h = "slice html (indexOf html marker)"
  from assms obtain ms where ms: "match_g ?h = u # ms"
    by (cases "match_g ?h") (auto simp: parseArchiveResults_def String_match_def split: if_splits)
  from match_g_first [OF ms] obtain i where "match_here (drop i ?h) = Some u" by blast
  then show ?thesis by (rule match_here_Some(1))
qed

lemma spec_archive_link_nonempty: "spec_archive_link u \<Longrightarrow> u \<noteq> []"
  by (auto simp: spec_archive_link_def)

lemma search_failed_is_Failed:
  "is_Failed (search_failed e) (''Search failed: '' @ js_message e)"
  by (simp add: is_Failed_def search_failed_def)

lemma one_outcome_Found: "is_Found r u \<Longrightarrow> one_outcome r"
  by (auto simp: one_outcome_def is_Found_def is_NotFound_def is_Failed_def)

lemma one_outcome_NotFound: "is_NotFound r \<Longrightarrow> one_outcome r"
  by (auto simp: one_outcome_def is_Found_def is_NotFound_def is_Failed_def)

lemma one_outcome_Failed: "is_Failed r reason \<Longrightarrow> one_outcome r"
  by (auto simp: one_outcome_def is_Found_def is_NotFound_def is_Failed_def)

text \<open>The four ways through \<^verbatim>\<open>searchArchiveResults\<close>.\<close>

lemma searchArchiveResults_rejected:
  "fetch p q = Inl e \<Longrightarrow> searchArchiveResults p q c = (Inr (search_failed e), [Fetch q])"
  by (simp add: searchArchiveResults_def)

lemma searchArchiveResults_status:
  "fetch p q = Inr response \<Longrightarrow> \<not> ok response \<Longrightarrow>
   searchArchiveResults p q c =
     (Inr (search_failed (JsError (''HTTP '' @ string_of_nat (status response) @ '': ''
        @ statusText response))), [Fetch q])"
  by (simp add: searchArchiveResults_def)

lemma searchArchiveResults_body_rejected:
  "fetch p q = Inr response \<Longrightarrow> ok response \<Longrightarrow> body_text response = Inl e \<Longrightarrow>
   searchArchiveResults p q c = (Inr (search_failed e), [Fetch q])"
  by (simp add: searchArchiveResults_def)

lemma searchArchiveResults_body:
  "fetch p q = Inr response \<Longrightarrow> ok response \<Longrightarrow> body_text response = Inr html \<Longrightarrow>
   searchArchiveResults p q c =
     (Inr (case parseArchiveResults html c of
             None \<Rightarrow> \<lparr>success = False, archiveUrl = None, error = Some ''No archive results found''\<rparr>
           | Some u \<Rightarrow> \<lparr>success = True, archiveUrl = Some u, error = None\<rparr>), [Fetch q])"
proof -
  assume a: "fetch p q = Inr response" "ok response" "body_text response = Inr html"
  show ?thesis
  proof (cases "parseArchiveResults html c")
    case None
    with a show ?thesis by (simp add: searchArchiveResults_def truthy_def)
  next
    case (Some u)
    then have "u \<noteq> []" using parseArchiveResults_Some spec_archive_link_nonempty by blast
    with a Some show ?thesis by (simp add: searchArchiveResults_def truthy_def)
  qed
qed

lemma searchArchiveResults_outcome:
  "\<exists>r. searchArchiveResults p q c = (Inr r, [Fetch q]) \<and>
       ((\<exists>u. is_Found r u \<and> spec_archive_link u) \<or> is_NotFound r \<or> (\<exists>reason. is_Failed r reason))"
proof (cases "fetch p q")
  case (Inl e)
  from searchArchiveResults_rejected [OF Inl] search_failed_is_Failed show ?thesis by metis
next
  case (Inr response)
  show ?thesis
  proof (cases "ok response")
    case False
    from searchArchiveResults_status [OF Inr False] search_failed_is_Failed show ?thesis by metis
  next
    case True
    show ?thesis
    proof (cases "body_text response")
      case (Inl e)
      from searchArchiveResults_body_rejected [OF Inr True Inl] search_failed_is_Failed
      show ?thesis by metis
    next
      case html: (Inr html)
      show ?thesis
      proof (cases "parseArchiveResults html c")
        case None
        with searchArchiveResults_body [OF Inr True html, of c] show ?thesis
          by (simp add: is_NotFound_def)
      next
        case (Some u)
        then have "spec_archive_link u" by (rule parseArchiveResults_Some)
        with Some searchArchiveResults_body [OF Inr True html, of c] show ?thesis
          by (auto simp: is_Found_def dest: spec_archive_link_nonempty)
      qed
    qed
  qed
qed

lemma findArchiveVersion_outcome:
  "\<exists>r evs. findArchiveVersion p url = (Inr r, evs) \<and> (\<forall>tab m. SendMessage tab m \<notin> set evs) \<and>
       ((\<exists>u. is_Found r u \<and> spec_archive_link u) \<or> is_NotFound r \<or> (\<exists>reason. is_Failed r reason))"
proof -
  obtain c where c: "cleanUrl p url = Inr c" using cleanUrl_returns by blast
  show ?thesis
  proof (cases "buildArchiveSearchUrl p c")
    case (Inl e)
    with c have "findArchiveVersion p url = (Inr (search_failed e), [])"
      by (simp add: findArchiveVersion_def)
    with search_failed_is_Failed show ?thesis by fastforce
  next
    case (Inr q)
    from searchArchiveResults_outcome [of p q c] findArchiveVersion_query [OF c Inr]
    show ?thesis by auto
  qed
qed

text \<open>
  C6. \<^verbatim>\<open>findArchiveVersion\<close> returns for every platform and every input, and what it
  returns has the shape of exactly one outcome. A request that is rejected (a transport
  error, or the timeout), a response with a status outside 200 to 299, and a body that
  cannot be read each give the failed outcome, with a reason that starts with
  \<^verbatim>\<open>Search failed:\<close> and goes on with the message of the error, or with \<^verbatim>\<open>HTTP\<close>, the status
  and the status text.
\<close>

theorem lookup_returns_one_outcome:
  "(\<exists>r evs. findArchiveVersion p url = (Inr r, evs) \<and> one_outcome r) \<and>
   (\<forall>c q e. cleanUrl p url = Inr c \<and> buildArchiveSearchUrl p c = Inr q \<and> fetch p q = Inl e \<longrightarrow>
      (\<exists>r. fst (findArchiveVersion p url) = Inr r \<and>
           is_Failed r (''Search failed: '' @ js_message e))) \<and>
   (\<forall>c q response. cleanUrl p url = Inr c \<and> buildArchiveSearchUrl p c = Inr q \<and>
        fetch p q = Inr response \<and> \<not> (200 \<le> status response \<and> status response \<le> 299) \<longrightarrow>
      (\<exists>r. fst (findArchiveVersion p url) = Inr r \<and>
           is_Failed r (''Search failed: HTTP '' @ string_of_nat (status response) @ '': ''
             @ statusText response))) \<and>
   (\<forall>c q response e. cleanUrl p url = Inr c \<and> buildArchiveSearchUrl p c = Inr q \<and>
        fetch p q = Inr response \<and> 200 \<le> status response \<and> status response \<le> 299 \<and>
        body_text response = Inl e \<longrightarrow>
      (\<exists>r. fst (findArchiveVersion p url) = Inr r \<and>
           is_Failed r (''Search failed: '' @ js_message e)))"
proof (intro conjI allI impI)
  from findArchiveVersion_outcome [of p url]
  show "\<exists>r evs. findArchiveVersion p url = (Inr r, evs) \<and> one_outcome r"
    using one_outcome_Found one_outcome_NotFound one_outcome_Failed by blast
next
  fix c q e
  assume "cleanUrl p url = Inr c \<and> buildArchiveSearchUrl p c = Inr q \<and> fetch p q = Inl e"
  then have "findArchiveVersion p url = (Inr (search_failed e), [Fetch q])"
    using findArchiveVersion_query searchArchiveResults_rejected by simp
  with search_failed_is_Failed [of e]
  show "\<exists>r. fst (findArchiveVersion p url) = Inr r \<and>
           is_Failed r (''Search failed: '' @ js_message e)" by simp
next
  fix c q and response :: Response
  let ?e = "JsError (''HTTP '' @ string_of_nat (status response) @ '': '' @ statusText response)"
  assume "cleanUrl p url = Inr c \<and> buildArchiveSearchUrl p c = Inr q \<and>
        fetch p q = Inr response \<and> \<not> (200 \<le> status response \<and> status response \<le> 299)"
  then have "findArchiveVersion p url = (Inr (search_failed ?e), [Fetch q])"
    using findArchiveVersion_query searchArchiveResults_status by (simp add: ok_def)
  with search_failed_is_Failed [of ?e]
  show "\<exists>r. fst (findArchiveVersion p url) = Inr r \<and>
           is_Failed r (''Search failed: HTTP '' @ string_of_nat (status response) @ '': ''
             @ statusText response)" by simp
next
  fix c q e and response :: Response
  assume "cleanUrl p url = Inr c \<and> buildArchiveSearchUrl p c = Inr q \<and>
        fetch p q = Inr response \<and> 200 \<le> status response \<and> status response \<le> 299 \<and>
        body_text response = Inl e"
  then have "findArchiveVersion p url = (Inr (search_failed e), [Fetch q])"
    using findArchiveVersion_query searchArchiveResults_body_rejected by (simp add: ok_def)
  with search_failed_is_Failed [of e]
  show "\<exists>r. fst (findArchiveVersion p url) = Inr r \<and>
           is_Failed r (''Search failed: '' @ js_message e)" by simp
qed

theorem lookup_returns_one_outcome_witness:
  "fetch timing_out ''https://archive.ph/https%3A%2F%2Fa.com%2Fp''
     = Inl (JsError ''The operation was aborted due to timeout'') \<and>
   fst (findArchiveVersion timing_out ''https://a.com/p?q=1#frag'')
     = Inr \<lparr>success = False, archiveUrl = None,
            error = Some ''Search failed: The operation was aborted due to timeout''\<rparr> \<and>
   fetch (serving unavailable) ''https://archive.ph/https%3A%2F%2Fa.com%2Fp'' = Inr unavailable \<and>
   status unavailable = 503 \<and>
   fst (findArchiveVersion (serving unavailable) ''https://a.com/p?q=1#frag'')
     = Inr \<lparr>success = False, archiveUrl = None,
            error = Some ''Search failed: HTTP 503: Service Unavailable''\<rparr>"
proof -
  let ?u = "''https://a.com/p?q=1#frag''" and ?c = "''https://a.com/p''"
  let ?q = "''https://archive.ph/https%3A%2F%2Fa.com%2Fp''"
  let ?e = "JsError ''The operation was aborted due to timeout''"
  have c1: "cleanUrl timing_out ?u = Inr ?c" by code_simp
  have q1: "buildArchiveSearchUrl timing_out ?c = Inr ?q" by code_simp
  have f1: "fetch timing_out ?q = Inl ?e"
    by (simp add: timing_out_def)
  have c2: "cleanUrl (serving unavailable) ?u = Inr ?c" by code_simp
  have q2: "buildArchiveSearchUrl (serving unavailable) ?c = Inr ?q" by code_simp
  have f2: "fetch (serving unavailable) ?q = Inr unavailable"
    by (simp add: serving_def)
  have s: "status unavailable = 503" "statusText unavailable = ''Service Unavailable''"
    by (simp_all add: unavailable_def)
  have n: "string_of_nat 503 = ''503''" by code_simp
  have h1: "cleanUrl timing_out ?u = Inr ?c \<and> buildArchiveSearchUrl timing_out ?c = Inr ?q \<and>
      fetch timing_out ?q = Inl ?e"
    by (intro conjI c1 q1 f1)
  have h2: "cleanUrl (serving unavailable) ?u = Inr ?c \<and>
      buildArchiveSearchUrl (serving unavailable) ?c = Inr ?q \<and>
      fetch (serving unavailable) ?q = Inr unavailable \<and>
      \<not> (200 \<le> status unavailable \<and> status unavailable \<le> 299)"
    using c2 q2 f2 by (simp add: s)
  from lookup_returns_one_outcome
    [of timing_out ?u, THEN conjunct2, THEN conjunct1, rule_format, OF h1]
  have r1: "fst (findArchiveVersion timing_out ?u)
     = Inr \<lparr>success = False, archiveUrl = None,
            error = Some ''Search failed: The operation was aborted due to timeout''\<rparr>"
    by (auto simp: is_Failed_def)
  from lookup_returns_one_outcome
    [of "serving unavailable" ?u, THEN conjunct2, THEN conjunct2, THEN conjunct1, rule_format, OF h2]
  have r2: "fst (findArchiveVersion (serving unavailable) ?u)
     = Inr \<lparr>success = False, archiveUrl = None,
            error = Some ''Search failed: HTTP 503: Service Unavailable''\<rparr>"
    by (auto simp: is_Failed_def s n)
  from f1 r1 f2 s(1) r2 show ?thesis by (intro conjI)
qed

subsection \<open>The messages to the tab\<close>

lemma handleFindArchive_found:
  assumes "SendMessage tab m \<in> set (handleFindArchive p url tabId)"
    and "msg_type m = ARCHIVE_FOUND"
  shows "\<exists>u. p_archiveUrl (payload m) = Some u \<and> spec_archive_link u"
proof -
  obtain r evs where r: "findArchiveVersion p url = (Inr r, evs)"
      and evs: "\<forall>tab m. SendMessage tab m \<notin> set evs"
      and shape: "(\<exists>u. is_Found r u \<and> spec_archive_link u) \<or> is_NotFound r
                   \<or> (\<exists>reason. is_Failed r reason)"
    using findArchiveVersion_outcome by blast
  from shape show ?thesis
  proof (elim disjE exE conjE)
    fix u assume "is_Found r u" and l: "spec_archive_link u"
    then have "r = \<lparr>success = True, archiveUrl = Some u, error = None\<rparr>" and "u \<noteq> []"
      by (simp_all add: is_Found_def)
    with assms r evs have "m = \<lparr>msg_type = ARCHIVE_FOUND,
        payload = no_payload\<lparr>p_archiveUrl := Some u\<rparr>\<rparr>"
      by (auto simp: handleFindArchive_def truthy_def split: option.splits if_splits)
    with l show ?thesis by (simp add: no_payload_def)
  next
    assume "is_NotFound r"
    then have "\<not> success r" by (simp add: is_NotFound_def)
    with assms r evs show ?thesis
      by (auto simp: handleFindArchive_def split: option.splits if_splits)
  next
    fix reason assume "is_Failed r reason"
    then have "\<not> success r" by (simp add: is_Failed_def)
    with assms r evs show ?thesis
      by (auto simp: handleFindArchive_def split: option.splits if_splits)
  qed
qed

text \<open>
  C10. \<^verbatim>\<open>ARCHIVE_FOUND\<close> is sent by \<^verbatim>\<open>handleFindArchive\<close> only (also when it is called from
  \<^verbatim>\<open>initiateArchiveSearch\<close>), and the \<^verbatim>\<open>archiveUrl\<close> it carries is \<^verbatim>\<open>https://archive.ph/\<close>
  followed by five or more letters and digits.
\<close>

theorem archive_found_carries_archive_link:
  assumes "SendMessage tab m \<in> set (handleFindArchive p url tabId)
             \<union> set (initiateArchiveSearch p url' tab')"
    and "msg_type m = ARCHIVE_FOUND"
  shows "\<exists>u. p_archiveUrl (payload m) = Some u \<and> spec_archive_link u"
proof -
  from assms have "SendMessage tab m \<in> set (handleFindArchive p url tabId)
      \<or> SendMessage tab m \<in> set (handleFindArchive p url' (Some tab'))"
    by (auto simp: initiateArchiveSearch_def)
  with assms(2) show ?thesis using handleFindArchive_found by blast
qed

theorem archive_found_carries_archive_link_witness:
  "handleFindArchive (serving results_page) ''https://news.example.com/story?utm=1'' (Some 7)
     = [Fetch ''https://archive.ph/https%3A%2F%2Fnews.example.com%2Fstory'',
        SendMessage 7 (found_message ''https://archive.ph/qz7x9'')] \<and>
   msg_type (found_message ''https://archive.ph/qz7x9'') = ARCHIVE_FOUND \<and>
   spec_archive_link ''https://archive.ph/qz7x9''"
proof -
  let ?u = "''https://news.example.com/story?utm=1''"
  let ?m = "found_message ''https://archive.ph/qz7x9''"
  have run: "handleFindArchive (serving results_page) ?u (Some 7)
     = [Fetch ''https://archive.ph/https%3A%2F%2Fnews.example.com%2Fstory'', SendMessage 7 ?m]"
    by code_simp
  have t: "msg_type ?m = ARCHIVE_FOUND" by (simp add: found_message_def)
  have "SendMessage 7 ?m \<in> set (handleFindArchive (serving results_page) ?u (Some 7))
          \<union> set (initiateArchiveSearch (serving results_page) ?u 7)"
    by (simp add: run)
  from archive_found_carries_archive_link [OF this t]
  have "spec_archive_link ''https://archive.ph/qz7x9''"
    by (simp add: found_message_def no_payload_def)
  with run t show ?thesis by simp
qed

lemma html_lines_error_inj:
  assumes "getErrorHTML st = getErrorHTML st'"
  shows "or_else (ui_error st) ''No archived version available''
       = or_else (ui_error st') ''No archived version available''"
  using assms by (simp add: getErrorHTML_def)

lemma handleMessage_error:
  assumes "container ui0 \<noteq> None" and "e \<noteq> []"
  shows "handleMessage ui0 (error_message e) =
     ui0\<lparr>container := Some (getErrorHTML
            \<lparr>isLoading = False, hasArchive = False, ui_archiveUrl = None, ui_error = Some e\<rparr>),
         state := \<lparr>isLoading = False, hasArchive = False, ui_archiveUrl = None, ui_error = Some e\<rparr>\<rparr>"
  using assms
  by (simp add: handleMessage_def error_message_def updateState_def renderUI_def truthy_def
      no_payload_def)

lemma handleFindArchive_not_found:
  assumes "cleanUrl p url = Inr c" and "buildArchiveSearchUrl p c = Inr q"
    and "fetch p q = Inr response" and "ok response" and "body_text response = Inr html"
    and "parseArchiveResults html c = None" and "tab \<noteq> 0"
  shows "findArchiveVersion p url =
           (Inr \<lparr>success = False, archiveUrl = None, error = Some ''No archive results found''\<rparr>,
            [Fetch q])"
    and "handleFindArchive p url (Some tab) =
           [Fetch q, SendMessage tab (error_message ''No archive results found'')]"
proof -
  from findArchiveVersion_query [OF assms(1,2)] searchArchiveResults_body [OF assms(3,4,5), of c]
    assms(6)
  show r: "findArchiveVersion p url =
           (Inr \<lparr>success = False, archiveUrl = None, error = Some ''No archive results found''\<rparr>,
            [Fetch q])" by simp
  with assms(7) show "handleFindArchive p url (Some tab) =
           [Fetch q, SendMessage tab (error_message ''No archive results found'')]"
    by (simp add: handleFindArchive_def error_message_def or_else_def)
qed

lemma handleFindArchive_failed:
  assumes "findArchiveVersion p url = (Inr (search_failed e), evs)" and "tab \<noteq> 0"
  shows "handleFindArchive p url (Some tab) =
           evs @ [SendMessage tab (error_message (''Search failed: '' @ js_message e))]"
  using assms
  by (simp add: handleFindArchive_def error_message_def or_else_def search_failed_def)

text \<open>
  C2. When the response has a status from 200 to 299 and the extractor finds no link in
  its body, the outcome is the not-found one, and the tab receives \<^verbatim>\<open>ARCHIVE_ERROR\<close> with
  the text \<^verbatim>\<open>No archive results found\<close>. When the request is rejected or the status is
  another one, the tab receives \<^verbatim>\<open>ARCHIVE_ERROR\<close> with a text that starts with
  \<^verbatim>\<open>Search failed:\<close>. The two messages differ, and so does what an open notification
  shows for them (both are the error card; its paragraph is the text of the message).
\<close>

theorem not_found_distinct_from_failed:
  assumes "cleanUrl p url = Inr c" and "buildArchiveSearchUrl p c = Inr q"
    and "fetch p q = Inr response" and "200 \<le> status response \<and> status response \<le> 299"
    and "body_text response = Inr html" and "parseArchiveResults html c = None"
    and "cleanUrl p' url' = Inr c'" and "buildArchiveSearchUrl p' c' = Inr q'"
    and "case fetch p' q' of Inl e \<Rightarrow> True
         | Inr response' \<Rightarrow> \<not> (200 \<le> status response' \<and> status response' \<le> 299)"
    and "tab \<noteq> 0" and "tab' \<noteq> 0" and "container ui0 \<noteq> None"
  shows "\<exists>r reason.
           fst (findArchiveVersion p url) = Inr r \<and> is_NotFound r \<and>
           handleFindArchive p url (Some tab) =
             [Fetch q, SendMessage tab (error_message ''No archive results found'')] \<and>
           handleFindArchive p' url' (Some tab') =
             [Fetch q', SendMessage tab' (error_message (''Search failed: '' @ reason))] \<and>
           error_message ''No archive results found'' \<noteq> error_message (''Search failed: '' @ reason) \<and>
           container (handleMessage ui0 (error_message ''No archive results found''))
             \<noteq> container (handleMessage ui0 (error_message (''Search failed: '' @ reason)))"
proof -
  from assms(4) have ok: "ok response" by (simp add: ok_def)
  note nf = handleFindArchive_not_found [OF assms(1,2,3) ok assms(5,6,10)]
  obtain e where e: "findArchiveVersion p' url' = (Inr (search_failed e), [Fetch q'])"
  proof (cases "fetch p' q'")
    case (Inl e)
    from findArchiveVersion_query [OF assms(7,8)] searchArchiveResults_rejected [OF Inl, of c']
    show ?thesis using that by simp
  next
    case (Inr response')
    with assms(9) have "\<not> ok response'" by (simp add: ok_def)
    from findArchiveVersion_query [OF assms(7,8)]
      searchArchiveResults_status [OF Inr this, of c']
    show ?thesis using that by simp
  qed
  let ?reason = "js_message e"
  have fl: "handleFindArchive p' url' (Some tab') =
      [Fetch q', SendMessage tab' (error_message (''Search failed: '' @ ?reason))]"
    using handleFindArchive_failed [OF e assms(11)] by simp
  have ne: "''No archive results found'' \<noteq> ''Search failed: '' @ ?reason" by simp
  then have msg: "error_message ''No archive results found''
      \<noteq> error_message (''Search failed: '' @ ?reason)"
    by (simp add: error_message_def no_payload_def)
  have "getErrorHTML \<lparr>isLoading = False, hasArchive = False, ui_archiveUrl = None,
          ui_error = Some ''No archive results found''\<rparr>
      \<noteq> getErrorHTML \<lparr>isLoading = False, hasArchive = False, ui_archiveUrl = None,
          ui_error = Some (''Search failed: '' @ ?reason)\<rparr>"
    using html_lines_error_inj ne by (fastforce simp: or_else_def)
  then have view: "container (handleMessage ui0 (error_message ''No archive results found''))
      \<noteq> container (handleMessage ui0 (error_message (''Search failed: '' @ ?reason)))"
    using handleMessage_error [OF assms(12)] by simp
  from nf(1) have "fst (findArchiveVersion p url) = Inr \<lparr>success = False, archiveUrl = None,
      error = Some ''No archive results found''\<rparr>" by simp
  moreover have "is_NotFound \<lparr>success = False, archiveUrl = None,
      error = Some ''No archive results found''\<rparr>" by (simp add: is_NotFound_def)
  ultimately show ?thesis using nf(2) fl msg view by blast
qed

theorem not_found_distinct_from_failed_witness:
  "handleFindArchive (serving empty_page) ''https://news.example.com/story?utm=1'' (Some 7)
     = [Fetch ''https://archive.ph/https%3A%2F%2Fnews.example.com%2Fstory'',
        SendMessage 7 (error_message ''No archive results found'')] \<and>
   handleFindArchive (serving unavailable) ''https://news.example.com/story?utm=1'' (Some 7)
     = [Fetch ''https://archive.ph/https%3A%2F%2Fnews.example.com%2Fstory'',
        SendMessage 7 (error_message ''Search failed: HTTP 503: Service Unavailable'')] \<and>
   container (handleMessage (init new_ArchiveNotificationUI ''https://news.example.com/story?utm=1'')
       (error_message ''No archive results found''))
     \<noteq> container (handleMessage (init new_ArchiveNotificationUI ''https://news.example.com/story?utm=1'')
       (error_message ''Search failed: HTTP 503: Service Unavailable''))"
proof -
  let ?u = "''https://news.example.com/story?utm=1''" and ?c = "''https://news.example.com/story''"
  let ?q = "''https://archive.ph/https%3A%2F%2Fnews.example.com%2Fstory''"
  let ?ui = "init new_ArchiveNotificationUI ?u"
  have c: "cleanUrl (serving empty_page) ?u = Inr ?c" by code_simp
  have q: "buildArchiveSearchUrl (serving empty_page) ?c = Inr ?q" by code_simp
  have f: "fetch (serving empty_page) ?q = Inr empty_page" by (simp add: serving_def)
  have s: "200 \<le> status empty_page \<and> status empty_page \<le> 299" by (simp add: empty_page_def)
  have b: \<open>body_text empty_page = Inr ''<div id="TEXT-BLOCK">No results</div>''\<close>
    by (simp add: empty_page_def)
  have n: \<open>parseArchiveResults ''<div id="TEXT-BLOCK">No results</div>'' ?c = None\<close>
    by code_simp
  have c': "cleanUrl (serving unavailable) ?u = Inr ?c" by code_simp
  have q': "buildArchiveSearchUrl (serving unavailable) ?c = Inr ?q" by code_simp
  have f': "case fetch (serving unavailable) ?q of Inl e \<Rightarrow> True
      | Inr response' \<Rightarrow> \<not> (200 \<le> status response' \<and> status response' \<le> 299)"
    by (simp add: serving_def unavailable_def)
  have t: "(7::int) \<noteq> 0" by simp
  have open_ui: "container ?ui \<noteq> None"
    by (simp add: init_def updateState_def renderUI_def createNotificationUI_def cleanup_def)
  have run: "handleFindArchive (serving unavailable) ?u (Some 7)
     = [Fetch ?q, SendMessage 7 (error_message ''Search failed: HTTP 503: Service Unavailable'')]"
    by code_simp
  from not_found_distinct_from_failed [OF c q f s b n c' q' f' t t open_ui]
  obtain reason where
    nf: "handleFindArchive (serving empty_page) ?u (Some 7)
       = [Fetch ?q, SendMessage 7 (error_message ''No archive results found'')]"
    and fl: "handleFindArchive (serving unavailable) ?u (Some 7)
       = [Fetch ?q, SendMessage 7 (error_message (''Search failed: '' @ reason))]"
    and view: "container (handleMessage ?ui (error_message ''No archive results found''))
       \<noteq> container (handleMessage ?ui (error_message (''Search failed: '' @ reason)))"
    by blast
  from fl run have "reason = ''HTTP 503: Service Unavailable''"
    by (simp add: error_message_def no_payload_def)
  with nf run view show ?thesis by simp
qed

subsection \<open>The notification UI\<close>

lemma renderUI_keeps: "state (renderUI u) = state u" "currentUrl (renderUI u) = currentUrl u"
  by (simp_all add: renderUI_def)

text \<open>
  C3, as stated: in the searching state, a found outcome that was produced for another
  target URL than the one the tab expects does not change the state of the tab. It does
  not hold: the UI that was started for \<^verbatim>\<open>https://b.example/new\<close> is searching, the lookup
  for \<^verbatim>\<open>https://b.example/old\<close> sends \<^verbatim>\<open>ARCHIVE_FOUND\<close>, and that message puts the UI into
  the found state; so it does when it arrives at the content script after the second
  injection.
\<close>

theorem stale_found_counterexample:
  "isLoading (state (init new_ArchiveNotificationUI ''https://b.example/new'')) \<and>
   currentUrl (init new_ArchiveNotificationUI ''https://b.example/new'') = ''https://b.example/new'' \<and>
   handleFindArchive (serving results_page) ''https://b.example/old'' (Some 7)
     = [Fetch ''https://archive.ph/https%3A%2F%2Fb.example%2Fold'',
        SendMessage 7 (found_message ''https://archive.ph/qz7x9'')] \<and>
   state (handleMessage (init new_ArchiveNotificationUI ''https://b.example/new'')
            (found_message ''https://archive.ph/qz7x9''))
     = \<lparr>isLoading = False, hasArchive = True,
        ui_archiveUrl = Some ''https://archive.ph/qz7x9'', ui_error = None\<rparr> \<and>
   map_option state
     (cs_ui (onMessage
        (onMessage (onMessage started_ContentScript (inject_message ''https://b.example/old''))
           (inject_message ''https://b.example/new''))
        (found_message ''https://archive.ph/qz7x9'')))
     = Some \<lparr>isLoading = False, hasArchive = True,
        ui_archiveUrl = Some ''https://archive.ph/qz7x9'', ui_error = None\<rparr>"
  by code_simp

text \<open>
  C3, amended. \<^verbatim>\<open>ARCHIVE_FOUND\<close> puts the UI into the found state with the \<^verbatim>\<open>archiveUrl\<close> of
  the message, in the searching state as in every other one, whatever the URL is that the
  UI was started for: the message names no target, and \<^verbatim>\<open>currentUrl\<close> is neither read nor
  changed.
\<close>

theorem archive_found_always_transitions:
  assumes "msg_type m = ARCHIVE_FOUND"
  shows "state (handleMessage ui0 m) =
           \<lparr>isLoading = False, hasArchive = True,
            ui_archiveUrl = p_archiveUrl (payload m), ui_error = None\<rparr> \<and>
         currentUrl (handleMessage ui0 m) = currentUrl ui0"
  using assms by (simp add: handleMessage_def updateState_def renderUI_keeps)

theorem archive_found_always_transitions_witness:
  "msg_type (found_message ''https://archive.ph/qz7x9'') = ARCHIVE_FOUND \<and>
   isLoading (state (init new_ArchiveNotificationUI ''https://b.example/new'')) \<and>
   state (handleMessage (init new_ArchiveNotificationUI ''https://b.example/new'')
            (found_message ''https://archive.ph/qz7x9''))
     = \<lparr>isLoading = False, hasArchive = True,
        ui_archiveUrl = Some ''https://archive.ph/qz7x9'', ui_error = None\<rparr> \<and>
   currentUrl (handleMessage (init new_ArchiveNotificationUI ''https://b.example/new'')
            (found_message ''https://archive.ph/qz7x9'')) = ''https://b.example/new''"
proof -
  have t: "msg_type (found_message ''https://archive.ph/qz7x9'') = ARCHIVE_FOUND"
    by (simp add: found_message_def)
  have l: "isLoading (state (init new_ArchiveNotificationUI ''https://b.example/new''))"
    by (simp add: init_def updateState_def renderUI_keeps)
  have u: "currentUrl (init new_ArchiveNotificationUI ''https://b.example/new'') = ''https://b.example/new''"
    by (simp add: init_def updateState_def createNotificationUI_def cleanup_def renderUI_keeps)
  from archive_found_always_transitions
    [OF t, of "init new_ArchiveNotificationUI ''https://b.example/new''"] t l u
  show ?thesis by (simp add: found_message_def no_payload_def)
qed

end
